theory Spec2Isabelle
  imports Main "HOL-Library.Word"
begin

section \<open>Data model of burp\_ai\_bridge.py\<close>

text \<open>
  Jython 2.7 strings are byte strings, so a Python \<open>str\<close> is a \<open>string\<close> (a list of
  8-bit characters) and \<open>len\<close> counts bytes. Java byte arrays handed over by the proxy
  framework are lists of 8-bit words; a Java \<open>null\<close> is \<open>None\<close>.
\<close>

type_synonym bytes = "8 word list"

datatype error = ValueError | UnicodeDecodeError | ExternalError string

text \<open>What \<open>IRequestInfo\<close> and \<open>IResponseInfo\<close> of the proxy framework deliver.\<close>

record request_info =
  getMethod :: string
  getUrl :: string
  getRequestHeaders :: "string list"

record response_info =
  getStatusCode :: int
  getResponseHeaders :: "string list"

text \<open>\<open>messageInfo\<close> together with its \<open>httpService\<close>.\<close>

record message_info =
  getRequest :: "bytes option"
  getResponse :: "bytes option"
  getHost :: string
  getPort :: int
  getProtocol :: string

text \<open>Values that \<open>json.dumps\<close> is applied to. A dictionary is an association list.\<close>

datatype json = JInt int | JStr string | JList "json list" | JDict "(string \<times> json) list"

text \<open>
  The collaborators that are not code of this repository: the helper object of the
  proxy framework (its calls are Java methods and may throw), \<open>base64.b64encode\<close> and
  \<open>json.dumps\<close> (second argument: the \<open>indent\<close> keyword, when given).
\<close>

record helpers =
  bytesToString :: "bytes \<Rightarrow> string"
  analyzeRequest :: "message_info \<Rightarrow> error + request_info"
  analyzeResponse :: "bytes \<Rightarrow> error + response_info"
  b64encode :: "bytes \<Rightarrow> string"
  json_dumps :: "json \<Rightarrow> nat option \<Rightarrow> string"

text \<open>
  A history entry is a Python dictionary. The keys \<open>status_code\<close> and
  \<open>response_headers\<close> are set under an \<open>if\<close> of their own, so they are optional here;
  every other key is set on each path that reaches the append. The key \<open>method\<close> is the
  field \<open>method_of\<close>.
\<close>

record entry =
  index :: int
  host :: string
  port :: int
  protocol :: string
  request :: string
  response :: string
  request_text :: string
  response_length :: int
  method_of :: string
  url :: string
  headers :: "string list"
  status_code :: "int option"
  response_headers :: "string list option"

text \<open>The attributes of \<open>BurpExtender\<close> that the callbacks read and write.\<close>

record extender =
  history :: "entry list"
  max_history :: nat
  server_port :: nat
  running :: bool

definition VERSION :: string where
  "VERSION = ''1.0.0''"

definition AUTHOR :: string where
  "AUTHOR = ''Can Hieu''"

definition registerExtenderCallbacks :: extender where
  "registerExtenderCallbacks =
     \<lparr>history = [], max_history = 1000, server_port = 8899, running = True\<rparr>"

section \<open>The capture callback\<close>

text \<open>
  Lines 65 to 95 of \<open>processProxyMessage\<close>: the gate and the construction of the entry.
  \<open>Inr None\<close>: the gate is closed and nothing is to be appended; \<open>Inl e\<close>: a helper call
  raised, and since the method has no \<open>try\<close>, the exception leaves the callback.
  \<open>if request and response\<close> holds for a Java array that is neither \<open>null\<close> nor empty.
\<close>

definition capture ::
  "helpers \<Rightarrow> bool \<Rightarrow> message_info \<Rightarrow> extender \<Rightarrow> error + entry option" where
  "capture api messageIsRequest messageInfo s =
     (if \<not> messageIsRequest then
        (case (getRequest messageInfo, getResponse messageInfo) of
           (Some req, Some resp) \<Rightarrow>
             if req \<noteq> [] \<and> resp \<noteq> [] then
               (case analyzeRequest api messageInfo of
                  Inl e \<Rightarrow> Inl e
                | Inr requestInfo \<Rightarrow>
                    let e = \<lparr>index = int (length (history s)),
                             host = getHost messageInfo,
                             port = getPort messageInfo,
                             protocol = getProtocol messageInfo,
                             request = b64encode api req,
                             response = b64encode api resp,
                             request_text = bytesToString api req,
                             response_length = int (length resp),
                             method_of = getMethod requestInfo,
                             url = getUrl requestInfo,
                             headers = getRequestHeaders requestInfo,
                             status_code = None,
                             response_headers = None\<rparr>
                    in if resp \<noteq> [] then
                         (case analyzeResponse api resp of
                            Inl e' \<Rightarrow> Inl e'
                          | Inr responseInfo \<Rightarrow>
                              Inr (Some (e\<lparr>status_code := Some (getStatusCode responseInfo),
                                           response_headers :=
                                             Some (getResponseHeaders responseInfo)\<rparr>)))
                       else Inr (Some e))
             else Inr None
         | _ \<Rightarrow> Inr None)
      else Inr None)"

text \<open>
  Lines 97 to 101: append, then drop the oldest entry when the list is longer than
  \<open>max_history\<close>. \<open>pop(0)\<close> runs on a list of length at least one there.
\<close>

definition append_entry :: "entry \<Rightarrow> extender \<Rightarrow> extender" where
  "append_entry e s =
     (let h = history s @ [e]
      in s\<lparr>history := (if length h > max_history s then tl h else h)\<rparr>)"

definition processProxyMessage ::
  "helpers \<Rightarrow> bool \<Rightarrow> message_info \<Rightarrow> extender \<Rightarrow> error + extender" where
  "processProxyMessage api messageIsRequest messageInfo s =
     (case capture api messageIsRequest messageInfo s of
        Inl e \<Rightarrow> Inl e
      | Inr None \<Rightarrow> Inr s
      | Inr (Some e) \<Rightarrow> Inr (append_entry e s))"

text \<open>
  The proxy framework calls the callback once per message. An exception that leaves the
  callback has changed nothing: the append is the last statement.
\<close>

fun deliver :: "helpers \<Rightarrow> extender \<Rightarrow> (bool \<times> message_info) list \<Rightarrow> extender" where
  "deliver api s [] = s"
| "deliver api s ((b, m) # ms) =
     deliver api (case processProxyMessage api b m s of Inl _ \<Rightarrow> s | Inr s' \<Rightarrow> s') ms"

text \<open>The entries handed to \<open>append\<close> during these calls, in call order.\<close>

fun appended :: "helpers \<Rightarrow> extender \<Rightarrow> (bool \<times> message_info) list \<Rightarrow> entry list" where
  "appended api s [] = []"
| "appended api s ((b, m) # ms) =
     (case capture api b m s of Inr (Some e) \<Rightarrow> [e] | _ \<Rightarrow> [])
     @ appended api (case processProxyMessage api b m s of Inl _ \<Rightarrow> s | Inr s' \<Rightarrow> s') ms"

section \<open>Reading the history\<close>

definition get_history :: "extender \<Rightarrow> entry list" where
  "get_history s = history s"

definition get_history_item :: "extender \<Rightarrow> int \<Rightarrow> entry option" where
  "get_history_item s i =
     (if 0 \<le> i \<and> i < int (length (history s)) then Some (history s ! nat i) else None)"

text \<open>
  \<open>list(set(...))\<close> and the dictionary comprehension over a set enumerate the distinct
  values in an order Python leaves open; the model takes the order of first occurrence.
\<close>

record stats =
  version :: string
  author :: string
  total_requests :: int
  hosts :: "string list"
  methods :: "(string \<times> nat) list"

definition get_stats :: "extender \<Rightarrow> stats" where
  "get_stats s =
     \<lparr>version = VERSION,
      author = AUTHOR,
      total_requests = int (length (history s)),
      hosts = remdups (map host (history s)),
      methods = map (\<lambda>m. (m, length (filter (\<lambda>h. method_of h = m) (history s))))
                    (remdups (map method_of (history s)))\<rparr>"

section \<open>The request handler\<close>

definition CR :: char where
  "CR = CHR 0x0D"

definition LF :: char where
  "LF = CHR 0x0A"

definition CRLF :: string where
  "CRLF = [CR, LF]"

text \<open>
  The read loop of \<open>RequestHandler.run\<close>: the bytes the client sends, as far as the
  first \<open>CR LF CR LF\<close> or the end of the stream. The client's stream is the list of
  bytes it sends before it stops (\<open>read\<close> returns -1 at its end).
\<close>

fun read_request :: "string \<Rightarrow> string \<Rightarrow> string" where
  "read_request request_data [] = request_data"
| "read_request request_data (b # bs) =
     (let request_data' = request_data @ [b]
      in if length request_data' \<ge> 4
            \<and> drop (length request_data' - 4) request_data' = CRLF @ CRLF
         then request_data'
         else read_request request_data' bs)"

text \<open>
  \<open>str.split(sep)\<close> with a separator given: every occurrence cuts, empty pieces are
  kept, the result is never empty. (Python raises on an empty separator; the handler
  passes none.)
\<close>

fun py_split :: "string \<Rightarrow> string \<Rightarrow> string list" where
  "py_split sep [] = [[]]"
| "py_split sep (c # cs) =
     (if sep \<noteq> [] \<and> take (length sep) (c # cs) = sep
      then [] # py_split sep (drop (length sep) (c # cs))
      else (case py_split sep cs of
              [] \<Rightarrow> [[c]]
            | w # ws \<Rightarrow> (c # w) # ws))"

definition startswith :: "string \<Rightarrow> string \<Rightarrow> bool" where
  "startswith t p = (take (length p) t = p)"

text \<open>
  \<open>int(t)\<close> on a byte string: whitespace around the literal is dropped, a sign may
  lead, decimal digits follow; anything else raises \<open>ValueError\<close>.
\<close>

definition is_space :: "char \<Rightarrow> bool" where
  "is_space c = (c \<in> set [CHR '' '', CHR 0x09, CHR 0x0A, CHR 0x0B, CHR 0x0C, CHR 0x0D])"

definition is_digit :: "char \<Rightarrow> bool" where
  "is_digit c = (48 \<le> (of_char c :: nat) \<and> (of_char c :: nat) \<le> 57)"

definition nat_of_digits :: "string \<Rightarrow> nat" where
  "nat_of_digits ds = foldl (\<lambda>a c. 10 * a + (of_char c - 48)) 0 ds"

definition strip :: "string \<Rightarrow> string" where
  "strip t = rev (dropWhile is_space (rev (dropWhile is_space t)))"

definition py_int :: "string \<Rightarrow> error + int" where
  "py_int t =
     (let u = strip t;
          (neg, ds) = (case u of
                         [] \<Rightarrow> (False, u)
                       | c # r \<Rightarrow> if c = CHR ''-'' then (True, r)
                                  else if c = CHR ''+'' then (False, r)
                                  else (False, u))
      in if ds \<noteq> [] \<and> list_all is_digit ds
         then Inr (if neg then - int (nat_of_digits ds) else int (nat_of_digits ds))
         else Inl ValueError)"

text \<open>\<open>"%d" % n\<close> for a length.\<close>

fun str_of_nat :: "nat \<Rightarrow> string" where
  "str_of_nat n =
     (if n < 10 then [char_of (48 + n)]
      else str_of_nat (n div 10) @ [char_of (48 + n mod 10)])"

text \<open>The dictionaries handed to \<open>json.dumps\<close>.\<close>

definition entry_json :: "entry \<Rightarrow> json" where
  "entry_json e =
     JDict ([(''index'', JInt (index e)),
             (''host'', JStr (host e)),
             (''port'', JInt (port e)),
             (''protocol'', JStr (protocol e)),
             (''request'', JStr (request e)),
             (''response'', JStr (response e)),
             (''request_text'', JStr (request_text e)),
             (''response_length'', JInt (response_length e)),
             (''method'', JStr (method_of e)),
             (''url'', JStr (url e)),
             (''headers'', JList (map JStr (headers e)))]
            @ (case status_code e of None \<Rightarrow> [] | Some c \<Rightarrow> [(''status_code'', JInt c)])
            @ (case response_headers e of
                 None \<Rightarrow> []
               | Some hs \<Rightarrow> [(''response_headers'', JList (map JStr hs))]))"

definition stats_json :: "stats \<Rightarrow> json" where
  "stats_json st =
     JDict [(''version'', JStr (version st)),
            (''author'', JStr (author st)),
            (''total_requests'', JInt (total_requests st)),
            (''hosts'', JList (map JStr (hosts st))),
            (''methods'', JDict (map (\<lambda>(m, n). (m, JInt (int n))) (methods st)))]"

definition health_json :: json where
  "health_json =
     JDict [(''status'', JStr ''ok''),
            (''extension'', JStr ''Burp AI Bridge''),
            (''version'', JStr VERSION),
            (''author'', JStr AUTHOR)]"

definition not_found_json :: json where
  "not_found_json =
     JDict [(''error'', JStr ''Endpoint not found''),
            (''available'',
             JList [JStr ''/health'', JStr ''/history'', JStr ''/history/N'', JStr ''/stats''])]"

text \<open>
  The routing chain of \<open>RequestHandler.run\<close>: status line text and body. An entry is a
  dictionary with keys, so \<open>if item\<close> holds exactly when the lookup returned one. Inside
  the \<open>try\<close> only \<open>int\<close> raises: the lookup checks its bounds and \<open>json.dumps\<close> is
  applied to strings, integers and lists of them.
\<close>

definition route :: "helpers \<Rightarrow> extender \<Rightarrow> string \<Rightarrow> string \<Rightarrow> string \<times> string" where
  "route api s meth path =
     (if meth = ''OPTIONS'' then (''200 OK'', [])
      else if path = ''/health'' then (''200 OK'', json_dumps api health_json None)
      else if path = ''/history'' then
        (''200 OK'', json_dumps api (JList (map entry_json (get_history s))) (Some 2))
      else if startswith path ''/history/'' then
        (case py_int (last (py_split ''/'' path)) of
           Inl _ \<Rightarrow>
             (''400 Bad Request'', json_dumps api (JDict [(''error'', JStr ''Invalid index'')]) None)
         | Inr i \<Rightarrow>
             (case get_history_item s i of
                Some item \<Rightarrow> (''200 OK'', json_dumps api (entry_json item) (Some 2))
              | None \<Rightarrow>
                  (''404 Not Found'',
                   json_dumps api (JDict [(''error'', JStr ''Item not found'')]) None)))
      else if path = ''/stats'' then
        (''200 OK'', json_dumps api (stats_json (get_stats s)) (Some 2))
      else (''404 Not Found'', json_dumps api not_found_json None))"

definition cors_headers :: string where
  "cors_headers =
     ''Access-Control-Allow-Origin: *'' @ CRLF
     @ ''Access-Control-Allow-Methods: GET, POST, OPTIONS'' @ CRLF
     @ ''Access-Control-Allow-Headers: Content-Type'' @ CRLF"

definition format_response :: "string \<Rightarrow> string \<Rightarrow> string \<Rightarrow> string" where
  "format_response status cors body =
     ''HTTP/1.1 '' @ status @ CRLF @ cors
     @ ''Content-Type: application/json'' @ CRLF
     @ ''Content-Length: '' @ str_of_nat (length body) @ CRLF
     @ ''Connection: close'' @ CRLF @ CRLF @ body"

text \<open>
  \<open>response.encode('utf-8')\<close> on a Python 2 byte string decodes it as ASCII first and
  raises on a byte above 127; on ASCII text it returns the same bytes.
\<close>

definition is_ascii :: "char \<Rightarrow> bool" where
  "is_ascii c = ((of_char c :: nat) < 128)"

definition encode_utf8 :: "string \<Rightarrow> error + string" where
  "encode_utf8 t = (if list_all is_ascii t then Inr t else Inl UnicodeDecodeError)"

text \<open>
  What one run of the handler leaves behind: the bytes written to the client, whether
  the socket was closed, and the lines printed to the error log.
\<close>

record handler_result =
  written :: string
  closed :: bool
  logged :: "string list"

definition request_line :: "string \<Rightarrow> string" where
  "request_line input = hd (py_split CRLF (read_request [] input))"

definition run :: "helpers \<Rightarrow> extender \<Rightarrow> string \<Rightarrow> handler_result" where
  "run api s input =
     (let req = read_request [] input;
          lines = py_split CRLF req
      in if lines \<noteq> [] then
           (let parts = py_split '' '' (hd lines)
            in if length parts \<ge> 2 then
                 (let meth = parts ! 0;
                      path = parts ! 1;
                      (status, response_body) = route api s meth path;
                      resp = format_response status cors_headers response_body
                  in case encode_utf8 resp of
                       Inr bs \<Rightarrow> \<lparr>written = bs, closed = True, logged = []\<rparr>
                     | Inl e \<Rightarrow>
                         \<lparr>written = [], closed = True,
                          logged = [''[-] Request handler error'']\<rparr>)
               else \<lparr>written = [], closed = True, logged = []\<rparr>)
         else \<lparr>written = [], closed = True, logged = []\<rparr>)"

section \<open>Calls that append, and a sample environment\<close>

text \<open>
  A call appends when it passes the gate and both helper calls return. Whether it does
  is independent of the store, so the store at start-up decides it.
\<close>

definition appends :: "helpers \<Rightarrow> bool \<times> message_info \<Rightarrow> bool" where
  "appends api bm =
     (case capture api (fst bm) (snd bm) registerExtenderCallbacks of
        Inr (Some _) \<Rightarrow> True
      | _ \<Rightarrow> False)"

text \<open>
  Collaborators to evaluate the model with: a serialiser that writes \<open>json.dumps\<close>'s
  default separators (and ignores \<open>indent\<close>), helpers that read the method off the
  first request byte and fail on a message without a host, and the identity on bytes
  in place of base64.
\<close>

definition quote_str :: "string \<Rightarrow> string" where
  "quote_str t =
     CHR 0x22
     # concat (map (\<lambda>c. if c = CHR 0x22 \<or> c = CHR 0x5C then [CHR 0x5C, c] else [c]) t)
     @ [CHR 0x22]"

fun join_str :: "string \<Rightarrow> string list \<Rightarrow> string" where
  "join_str sep [] = []"
| "join_str sep [x] = x"
| "join_str sep (x # y # ys) = x @ sep @ join_str sep (y # ys)"

fun dumps_compact :: "json \<Rightarrow> string" where
  "dumps_compact (JInt i) =
     (if i < 0 then CHR ''-'' # str_of_nat (nat (- i)) else str_of_nat (nat i))"
| "dumps_compact (JStr t) = quote_str t"
| "dumps_compact (JList xs) = ''['' @ join_str '', '' (map dumps_compact xs) @ '']''"
| "dumps_compact (JDict kvs) =
     ''{''
     @ join_str '', '' (map (\<lambda>kv. quote_str (fst kv) @ '': '' @ dumps_compact (snd kv)) kvs)
     @ ''}''"

definition sample_helpers :: helpers where
  "sample_helpers =
     \<lparr>bytesToString = map (\<lambda>w. char_of (unat w)),
      analyzeRequest =
        (\<lambda>m. if getHost m = [] then Inl (ExternalError ''analyzeRequest'')
             else Inr \<lparr>getMethod = (if map_option (take 1) (getRequest m) = Some [0x50]
                                     then ''POST'' else ''GET''),
                        getUrl = getProtocol m @ ''://'' @ getHost m @ ''/'',
                        getRequestHeaders = [''Host: '' @ getHost m]\<rparr>),
      analyzeResponse =
        (\<lambda>b. Inr \<lparr>getStatusCode = 200, getResponseHeaders = [''HTTP/1.1 200 OK'']\<rparr>),
      b64encode = map (\<lambda>w. char_of (unat w)),
      json_dumps = (\<lambda>j indent. dumps_compact j)\<rparr>"

definition sample_message :: message_info where
  "sample_message =
     \<lparr>getRequest = Some [0x47, 0x45, 0x54], getResponse = Some [0x48],
      getHost = ''example.com'', getPort = 80, getProtocol = ''http''\<rparr>"

definition sample_post :: message_info where
  "sample_post =
     \<lparr>getRequest = Some [0x50, 0x4F, 0x53, 0x54], getResponse = Some [0x48],
      getHost = ''example.org'', getPort = 443, getProtocol = ''https''\<rparr>"


definition sample_entry :: entry where
  "sample_entry =
     \<lparr>index = 0, host = ''example.com'', port = 80, protocol = ''http'',
      request = ''GET'', response = ''H'', request_text = ''GET'',
      response_length = 1, method_of = ''GET'',
      url = ''http://example.com/'', headers = [''Host: example.com''],
      status_code = Some 200, response_headers = Some [''HTTP/1.1 200 OK'']\<rparr>"

definition sample_post_entry :: entry where
  "sample_post_entry =
     \<lparr>index = 1, host = ''example.org'', port = 443, protocol = ''https'',
      request = ''POST'', response = ''H'', request_text = ''POST'',
      response_length = 1, method_of = ''POST'',
      url = ''https://example.org/'', headers = [''Host: example.org''],
      status_code = Some 200, response_headers = Some [''HTTP/1.1 200 OK'']\<rparr>"

definition sample_store :: extender where
  "sample_store =
     deliver sample_helpers registerExtenderCallbacks
       [(False, sample_message), (False, sample_post)]"

text \<open>What a client sends: a request line and the empty line that ends the headers.\<close>

definition http_request :: "string \<Rightarrow> string \<Rightarrow> string" where
  "http_request meth path = meth @ '' '' @ path @ '' HTTP/1.1'' @ CRLF @ CRLF"

definition malformed_request :: string where
  "malformed_request = ''GARBAGE'' @ CRLF @ CRLF"

section \<open>The store under a sequence of calls\<close>

lemma append_entry_history:
  "length (history s) \<le> max_history s \<Longrightarrow>
   history (append_entry e s) = drop (Suc (length (history s)) - max_history s) (history s @ [e])"
  by (cases "history s") (auto simp: append_entry_def Let_def Suc_diff_le)

lemma append_entry_max [simp]: "max_history (append_entry e s) = max_history s"
  by (simp add: append_entry_def Let_def)

lemma append_entry_length:
  "length (history s) \<le> max_history s \<Longrightarrow> length (history (append_entry e s)) \<le> max_history s"
  by (auto simp: append_entry_def Let_def)

lemma append_entry_length_eq:
  "length (history s) \<le> max_history s \<Longrightarrow>
   length (history (append_entry e s)) = min (Suc (length (history s))) (max_history s)"
  by (auto simp: append_entry_def Let_def)

lemma capture_index: "capture api b m s = Inr (Some e) \<Longrightarrow> index e = int (length (history s))"
  by (auto simp: capture_def Let_def split: if_splits option.splits sum.splits)

lemma capture_response_fields:
  "capture api b m s = Inr (Some e) \<Longrightarrow> status_code e \<noteq> None \<and> response_headers e \<noteq> None"
  by (auto simp: capture_def Let_def split: if_splits option.splits sum.splits)

lemma capture_other_store:
  "capture api b m s = Inr (Some e) \<Longrightarrow>
   capture api b m s' = Inr (Some (e\<lparr>index := int (length (history s'))\<rparr>))"
  by (auto simp: capture_def Let_def split: if_splits option.splits sum.splits)

lemma appends_capture:
  "appends api (b, m) \<Longrightarrow> \<exists>e. capture api b m s = Inr (Some e)"
  unfolding appends_def
  by (auto split: sum.splits option.splits dest: capture_other_store [where s' = s])

lemma drop_drop_append:
  assumes "k \<le> length xs"
  shows "drop j (drop k xs @ ys) = drop (j + k) (xs @ ys)"
  using assms by (simp add: add.commute)

lemma deliver_closed_form:
  "length (history s) \<le> max_history s \<Longrightarrow>
   max_history (deliver api s ms) = max_history s \<and>
   history (deliver api s ms) =
     drop (length (history s) + length (appended api s ms) - max_history s)
          (history s @ appended api s ms)"
proof (induction ms arbitrary: s)
  case Nil
  then show ?case by simp
next
  case (Cons bm ms)
  obtain b m where bm: "bm = (b, m)" by (cases bm)
  show ?case
  proof (cases "capture api b m s")
    case (Inl e)
    with Cons bm show ?thesis by (simp add: processProxyMessage_def)
  next
    case (Inr r)
    show ?thesis
    proof (cases r)
      case None
      with Inr Cons bm show ?thesis by (simp add: processProxyMessage_def)
    next
      case (Some e)
      let ?s1 = "append_entry e s"
      let ?k = "Suc (length (history s)) - max_history s"
      have len1: "length (history ?s1) \<le> max_history ?s1"
        using Cons.prems by (simp add: append_entry_length)
      have h1: "history ?s1 = drop ?k (history s @ [e])"
        using Cons.prems by (rule append_entry_history)
      have kle: "?k \<le> length (history s @ [e])" by simp
      from Cons.IH [OF len1]
      have mx: "max_history (deliver api ?s1 ms) = max_history s"
        and hh: "history (deliver api ?s1 ms) =
          drop (length (history ?s1) + length (appended api ?s1 ms) - max_history s)
               (history ?s1 @ appended api ?s1 ms)"
        by simp_all
      have "history (deliver api ?s1 ms) =
          drop (length (history ?s1) + length (appended api ?s1 ms) - max_history s + ?k)
               ((history s @ [e]) @ appended api ?s1 ms)"
        unfolding hh h1 using kle by (rule drop_drop_append)
      moreover have "length (history ?s1) + length (appended api ?s1 ms) - max_history s + ?k
          = length (history s) + Suc (length (appended api ?s1 ms)) - max_history s"
        using Cons.prems unfolding h1 by (simp; arith)
      ultimately show ?thesis
        using Inr Some bm mx by (simp add: processProxyMessage_def)
    qed
  qed
qed

lemma appended_length:
  "\<forall>bm \<in> set ms. appends api bm \<Longrightarrow> length (appended api s ms) = length ms"
proof (induction ms arbitrary: s)
  case Nil
  then show ?case by simp
next
  case (Cons bm ms)
  obtain b m where bm: "bm = (b, m)" by (cases bm)
  from Cons.prems bm obtain e where "capture api b m s = Inr (Some e)"
    using appends_capture by fastforce
  with Cons bm show ?case by simp
qed

lemma appended_index_nth:
  "length (history s) \<le> max_history s \<Longrightarrow> k < length (appended api s ms) \<Longrightarrow>
   index (appended api s ms ! k) = int (min (length (history s) + k) (max_history s))"
proof (induction ms arbitrary: s k)
  case Nil
  then show ?case by simp
next
  case (Cons bm ms)
  obtain b m where bm: "bm = (b, m)" by (cases bm)
  show ?case
  proof (cases "capture api b m s")
    case (Inl e)
    with Cons bm show ?thesis by (simp add: processProxyMessage_def)
  next
    case (Inr r)
    show ?thesis
    proof (cases r)
      case None
      with Inr Cons bm show ?thesis by (simp add: processProxyMessage_def)
    next
      case (Some e)
      let ?s1 = "append_entry e s"
      have app: "appended api s (bm # ms) = e # appended api ?s1 ms"
        using Inr Some bm by (simp add: processProxyMessage_def)
      have len1: "length (history ?s1) \<le> max_history ?s1"
        using Cons.prems(1) by (simp add: append_entry_length)
      show ?thesis
      proof (cases k)
        case 0
        with app Cons.prems(1) capture_index [of api b m s e] Inr Some show ?thesis by simp
      next
        case (Suc k')
        with Cons.prems(2) app have "k' < length (appended api ?s1 ms)" by simp
        from Cons.IH [OF len1 this]
        have "index (appended api ?s1 ms ! k') =
              int (min (length (history ?s1) + k') (max_history s))" by simp
        with app Suc Cons.prems(1) show ?thesis
          by (simp add: append_entry_length_eq min_def)
      qed
    qed
  qed
qed

lemma appended_response_fields:
  "e \<in> set (appended api s ms) \<Longrightarrow> status_code e \<noteq> None \<and> response_headers e \<noteq> None"
proof (induction ms arbitrary: s)
  case Nil
  then show ?case by simp
next
  case (Cons bm ms)
  obtain b m where bm: "bm = (b, m)" by (cases bm)
  from Cons bm show ?case
    by (auto split: sum.splits option.splits dest: capture_response_fields [OF sym])
qed

lemma init_ok: "length (history registerExtenderCallbacks) \<le> max_history registerExtenderCallbacks"
  "history registerExtenderCallbacks = []" "max_history registerExtenderCallbacks = 1000"
  by (simp_all add: registerExtenderCallbacks_def)

lemma history_from_start:
  "history (deliver api registerExtenderCallbacks ms) =
     drop (length (appended api registerExtenderCallbacks ms) - 1000)
          (appended api registerExtenderCallbacks ms)"
  using deliver_closed_form [of registerExtenderCallbacks api ms] by (simp add: init_ok)

lemma sample_appends: "appends sample_helpers (False, sample_message)"
  by (simp add: appends_def capture_def sample_helpers_def sample_message_def Let_def)

lemma sample_log_length:
  "length (appended sample_helpers registerExtenderCallbacks (replicate n (False, sample_message))) = n"
  using appended_length [of "replicate n (False, sample_message)" sample_helpers] sample_appends
  by simp


lemma sample_two_log:
  "appended sample_helpers registerExtenderCallbacks [(False, sample_message), (False, sample_post)]
   = [sample_entry, sample_post_entry]"
  by code_simp

lemma sample_store_history: "history sample_store = [sample_entry, sample_post_entry]"
  by code_simp

lemma sample_entry_fields:
  "index sample_entry = 0" "index sample_post_entry = 1"
  "status_code sample_entry = Some 200" "response_headers sample_entry = Some [''HTTP/1.1 200 OK'']"
  "status_code sample_post_entry = Some 200"
  "response_headers sample_post_entry = Some [''HTTP/1.1 200 OK'']"
  "host sample_entry = ''example.com''" "host sample_post_entry = ''example.org''"
  "method_of sample_entry = ''GET''" "method_of sample_post_entry = ''POST''"
  by (simp_all add: sample_entry_def sample_post_entry_def)

section \<open>Claims about the history store\<close>

text \<open>
  C2. Start from the store at start-up and let more than 1000 calls append, one entry
  each. Then the store holds exactly 1000 entries, and they are the last 1000 entries
  appended, oldest first. After any sequence of calls whatever the store holds at most
  1000 entries, so the bound holds after every append.
\<close>

theorem fifo_eviction:
  assumes "\<forall>bm \<in> set ms. appends api bm" and "length ms > 1000"
  shows "length (appended api registerExtenderCallbacks ms) = length ms
       \<and> length (get_history (deliver api registerExtenderCallbacks ms)) = 1000
       \<and> get_history (deliver api registerExtenderCallbacks ms)
           = drop (length ms - 1000) (appended api registerExtenderCallbacks ms)
       \<and> (\<forall>ns. length (get_history (deliver api registerExtenderCallbacks ns)) \<le> 1000)"
proof -
  have len: "length (appended api registerExtenderCallbacks ms) = length ms"
    using assms(1) by (rule appended_length)
  have bound: "length (get_history (deliver api registerExtenderCallbacks ns)) \<le> 1000" for ns
    unfolding get_history_def history_from_start by simp
  show ?thesis
    using len assms(2) bound by (simp add: get_history_def history_from_start)
qed

theorem fifo_eviction_witness:
  "appends sample_helpers (False, sample_message)
   \<and> length (replicate 1001 (False, sample_message)) > 1000
   \<and> length (get_history (deliver sample_helpers registerExtenderCallbacks
                (replicate 1001 (False, sample_message)))) = 1000
   \<and> get_history (deliver sample_helpers registerExtenderCallbacks
         (replicate 1001 (False, sample_message)))
       = drop 1 (appended sample_helpers registerExtenderCallbacks
                   (replicate 1001 (False, sample_message)))"
  using fifo_eviction [of "replicate 1001 (False, sample_message)" sample_helpers] sample_appends
  by simp




lemma history_nth_index:
  assumes "length (appended api registerExtenderCallbacks ms) \<le> 1000"
    and "k < length (history (deliver api registerExtenderCallbacks ms))"
  shows "index (history (deliver api registerExtenderCallbacks ms) ! k) = int k"
  using assms appended_index_nth [of registerExtenderCallbacks k api ms]
  by (simp add: history_from_start init_ok)

text \<open>
  C1 (as amended). \<open>get_history_item\<close> is positional: for \<open>0 \<le> i < len\<close> it returns the
  entry at position \<open>i\<close> of the retained sequence, and \<open>None\<close> for every other \<open>i\<close>, the
  negative ones included. As long as at most 1000 entries have been appended since
  start-up (nothing has been evicted), the entry it returns is the retained entry whose
  \<open>index\<close> field is \<open>i\<close>, and it returns \<open>None\<close> exactly when there is none.
\<close>

theorem lookup_is_positional:
  "get_history_item s i =
     (if 0 \<le> i \<and> i < int (length (get_history s)) then Some (get_history s ! nat i) else None)
   \<and> (length (appended api registerExtenderCallbacks ms) \<le> 1000 \<longrightarrow>
        (\<forall>e. get_history_item (deliver api registerExtenderCallbacks ms) i = Some e
              \<longleftrightarrow> e \<in> set (get_history (deliver api registerExtenderCallbacks ms))
                  \<and> index e = i))"
proof -
  let ?h = "history (deliver api registerExtenderCallbacks ms)"
  have "get_history_item (deliver api registerExtenderCallbacks ms) i = Some e
        \<longleftrightarrow> e \<in> set ?h \<and> index e = i"
    if le: "length (appended api registerExtenderCallbacks ms) \<le> 1000" for e
  proof
    assume "get_history_item (deliver api registerExtenderCallbacks ms) i = Some e"
    then have i: "0 \<le> i" "nat i < length ?h" and e: "e = ?h ! nat i"
      by (auto simp: get_history_item_def split: if_splits)
    from history_nth_index [OF le i(2)] i(1) e have "index e = i" by simp
    with i e show "e \<in> set ?h \<and> index e = i" by simp
  next
    assume a: "e \<in> set ?h \<and> index e = i"
    then obtain k where k: "k < length ?h" "e = ?h ! k"
      by (auto simp: in_set_conv_nth)
    from history_nth_index [OF le k(1)] k(2) a have "i = int k" by simp
    with k show "get_history_item (deliver api registerExtenderCallbacks ms) i = Some e"
      by (simp add: get_history_item_def)
  qed
  then show ?thesis
    by (simp add: get_history_item_def get_history_def)
qed

theorem lookup_is_positional_witness:
  "length (appended sample_helpers registerExtenderCallbacks
             [(False, sample_message), (False, sample_post)]) \<le> 1000
   \<and> get_history_item sample_store 1 = Some sample_post_entry
   \<and> sample_post_entry \<in> set (get_history sample_store)
   \<and> index sample_post_entry = 1
   \<and> get_history_item sample_store 2 = None
   \<and> get_history_item sample_store (- 1) = None"
  using lookup_is_positional [of sample_store 1 sample_helpers
          "[(False, sample_message), (False, sample_post)]"]
        lookup_is_positional [of sample_store 2]
        lookup_is_positional [of sample_store "- 1"]
  unfolding sample_store_def [symmetric] sample_two_log
  by (simp add: sample_store_history sample_entry_fields get_history_def)

theorem lookup_by_field_counterexample:
  "map_option index
     (get_history_item
        (deliver sample_helpers registerExtenderCallbacks (replicate 1001 (False, sample_message)))
        0) = Some 1
   \<and> get_history_item
        (deliver sample_helpers registerExtenderCallbacks (replicate 1001 (False, sample_message)))
        1000 = None
   \<and> 1000 \<in> index ` set (get_history
        (deliver sample_helpers registerExtenderCallbacks (replicate 1001 (False, sample_message))))"
proof -
  let ?ms = "replicate 1001 (False, sample_message)"
  let ?L = "appended sample_helpers registerExtenderCallbacks ?ms"
  let ?s = "deliver sample_helpers registerExtenderCallbacks ?ms"
  have len: "length ?L = 1001" by (rule sample_log_length)
  have h: "history ?s = drop 1 ?L"
    using history_from_start [of sample_helpers ?ms] len by simp
  have i1: "index (?L ! 1) = 1"
    using appended_index_nth [of registerExtenderCallbacks 1 sample_helpers ?ms] len
    by (simp add: init_ok)
  have i1000: "index (?L ! 1000) = 1000"
    using appended_index_nth [of registerExtenderCallbacks 1000 sample_helpers ?ms] len
    by (simp add: init_ok)
  have a: "map_option index (get_history_item ?s 0) = Some 1"
    using len i1 by (simp add: get_history_item_def h)
  have b: "get_history_item ?s 1000 = None"
    using len by (simp add: get_history_item_def h)
  have "drop 1 ?L ! 999 \<in> set (drop 1 ?L)"
    using len by (intro nth_mem) simp
  moreover have "drop 1 ?L ! 999 = ?L ! 1000"
    using len by simp
  ultimately have "?L ! 1000 \<in> set (history ?s)"
    unfolding h by simp
  then have c: "1000 \<in> index ` set (get_history ?s)"
    unfolding get_history_def using i1000 by (metis image_eqI)
  from a b c show ?thesis by simp
qed

lemma count_sum_over_distinct:
  "sum_list (map (\<lambda>v. length (filter (\<lambda>h. f h = v) hs)) (remdups (map f hs))) = length hs"
proof -
  have eq: "length (filter (\<lambda>h. f h = v) hs) = count_list (map f hs) v" for v
    by (induction hs) auto
  have "sum_list (map (count_list (map f hs)) (remdups (map f hs)))
        = sum (count_list (map f hs)) (set (map f hs))"
    by (simp add: sum_list_distinct_conv_sum_set)
  also have "\<dots> = length (map f hs)"
    by (rule sum_count_set) simp_all
  finally show ?thesis by (simp add: eq)
qed

lemma map_of_counts:
  "map_of (map (\<lambda>v. (v, g v)) vs) m = (if m \<in> set vs then Some (g m) else None)"
  by (induction vs) auto

text \<open>
  C4. For every store, \<open>get_stats\<close> reports as \<open>total_requests\<close> the number of retained
  entries, as \<open>hosts\<close> the distinct \<open>host\<close> values of the retained entries (each once),
  and as \<open>methods\<close> a dictionary whose keys are the distinct method strings observed and
  whose value at a method is the number of retained entries with that method; the values
  of \<open>methods\<close> add up to \<open>total_requests\<close>.
\<close>

theorem get_stats_counts:
  "total_requests (get_stats s) = int (length (get_history s))
   \<and> set (hosts (get_stats s)) = host ` set (get_history s)
   \<and> distinct (hosts (get_stats s))
   \<and> distinct (map fst (methods (get_stats s)))
   \<and> map_of (methods (get_stats s)) m
       = (if m \<in> method_of ` set (get_history s)
          then Some (length (filter (\<lambda>h. method_of h = m) (get_history s))) else None)
   \<and> int (sum_list (map snd (methods (get_stats s)))) = total_requests (get_stats s)"
proof -
  have "map fst (methods (get_stats s)) = remdups (map method_of (history s))"
    by (simp add: get_stats_def comp_def)
  moreover have "map snd (methods (get_stats s))
      = map (\<lambda>v. length (filter (\<lambda>h. method_of h = v) (history s)))
            (remdups (map method_of (history s)))"
    by (simp add: get_stats_def comp_def)
  moreover have "map_of (methods (get_stats s)) m
      = (if m \<in> method_of ` set (history s)
         then Some (length (filter (\<lambda>h. method_of h = m) (history s))) else None)"
    unfolding get_stats_def by (simp add: map_of_counts)
  ultimately show ?thesis
    by (simp add: count_sum_over_distinct get_history_def) (simp add: get_stats_def)
qed

theorem get_stats_counts_witness:
  "get_history sample_store = [sample_entry, sample_post_entry]
   \<and> total_requests (get_stats sample_store) = 2
   \<and> set (hosts (get_stats sample_store)) = {''example.com'', ''example.org''}
   \<and> map_of (methods (get_stats sample_store)) ''GET'' = Some 1
   \<and> map_of (methods (get_stats sample_store)) ''POST'' = Some 1
   \<and> map_of (methods (get_stats sample_store)) ''PUT'' = None
   \<and> sum_list (map snd (methods (get_stats sample_store))) = 2"
  using get_stats_counts [of sample_store "''GET''"] get_stats_counts [of sample_store "''POST''"]
        get_stats_counts [of sample_store "''PUT''"]
  by (simp add: get_history_def sample_store_history sample_entry_fields)

section \<open>Claims about the capture callback\<close>

text \<open>
  C10. Every entry retained in the store, after any sequence of calls of the callback
  since start-up, has the keys \<open>status_code\<close> and \<open>response_headers\<close>: the append is
  reached only with a response present, so the inner test on the response never fails.
\<close>

theorem retained_entries_have_response_fields:
  "\<forall>e \<in> set (get_history (deliver api registerExtenderCallbacks ms)).
     status_code e \<noteq> None \<and> response_headers e \<noteq> None"
proof
  fix e
  assume "e \<in> set (get_history (deliver api registerExtenderCallbacks ms))"
  then have "e \<in> set (appended api registerExtenderCallbacks ms)"
    unfolding get_history_def history_from_start by (rule in_set_dropD)
  then show "status_code e \<noteq> None \<and> response_headers e \<noteq> None"
    by (rule appended_response_fields)
qed

theorem retained_entries_have_response_fields_witness:
  "get_history sample_store = [sample_entry, sample_post_entry]
   \<and> status_code sample_entry \<noteq> None \<and> response_headers sample_entry \<noteq> None
   \<and> status_code sample_post_entry \<noteq> None \<and> response_headers sample_post_entry \<noteq> None"
  using retained_entries_have_response_fields [of sample_helpers
          "[(False, sample_message), (False, sample_post)]"]
  unfolding sample_store_def [symmetric]
  by (simp add: get_history_def sample_store_history)




section \<open>Splitting, parsing and formatting\<close>

lemma py_split_not_Nil [simp]: "py_split sep t \<noteq> []"
  by (induction sep t rule: py_split.induct) (auto split: list.splits)

lemma py_split_no_sep: "c \<notin> set t \<Longrightarrow> py_split [c] t = [t]"
  by (induction t) auto

lemma py_split_with_sep: "c \<in> set t \<Longrightarrow> 2 \<le> length (py_split [c] t)"
proof (induction t)
  case Nil
  then show ?case by simp
next
  case (Cons x xs)
  show ?case
  proof (cases "x = c")
    case True
    then show ?thesis
      using py_split_not_Nil [of "[c]" xs] by (cases "py_split [c] xs") auto
  next
    case False
    with Cons show ?thesis by (auto split: list.splits)
  qed
qed

lemma py_split_short_iff: "length (py_split [c] t) < 2 \<longleftrightarrow> c \<notin> set t"
  using py_split_with_sep [of c t] py_split_no_sep [of c t] by fastforce


declare str_of_nat.simps [simp del]

lemma digit_char: "d < 10 \<Longrightarrow> (of_char (char_of (48 + d :: nat)) :: nat) = 48 + d"
  by simp

lemma str_of_nat_digits: "list_all is_digit (str_of_nat n)"
proof (induction n rule: str_of_nat.induct)
  case (1 n)
  show ?case
  proof (cases "n < 10")
    case True
    then show ?thesis by (subst str_of_nat.simps) (simp add: is_digit_def digit_char)
  next
    case False
    have "n mod 10 < 10" by simp
    then have "is_digit (char_of (48 + n mod 10))"
      unfolding is_digit_def by (simp only: digit_char) simp
    with False 1 show ?thesis by (subst str_of_nat.simps) simp
  qed
qed
lemma nat_of_digits_snoc:
  "nat_of_digits (ds @ [c]) = 10 * nat_of_digits ds + (of_char c - 48)"
  by (simp add: nat_of_digits_def)

lemma str_of_nat_value: "nat_of_digits (str_of_nat n) = n"
proof (induction n rule: str_of_nat.induct)
  case (1 n)
  show ?case
  proof (cases "n < 10")
    case True
    then show ?thesis
      by (subst str_of_nat.simps) (simp add: nat_of_digits_def digit_char)
  next
    case False
    have "n mod 10 < 10" by simp
    then have "(of_char (char_of (48 + n mod 10)) :: nat) - 48 = n mod 10"
      by (simp only: digit_char)
    with False 1 show ?thesis
      by (subst str_of_nat.simps) (simp add: nat_of_digits_snoc)
  qed
qed

lemma digit_is_ascii: "is_digit c \<Longrightarrow> is_ascii c"
  by (simp add: is_digit_def is_ascii_def)





lemma str_of_nat_ascii: "list_all is_ascii (str_of_nat n)"
  using str_of_nat_digits [of n] by (auto simp: list_all_iff digit_is_ascii)

lemma route_status:
  "fst (route api s meth path) \<in> {''200 OK'', ''400 Bad Request'', ''404 Not Found''}"
  by (simp add: route_def split: sum.splits option.splits)

lemma status_ascii:
  "list_all is_ascii ''200 OK''" "list_all is_ascii ''400 Bad Request''"
  "list_all is_ascii ''404 Not Found''"
  by code_simp+

lemma header_ascii:
  "list_all is_ascii ''HTTP/1.1 ''" "list_all is_ascii CRLF" "list_all is_ascii cors_headers"
  "list_all is_ascii ''Content-Type: application/json''"
  "list_all is_ascii ''Content-Length: ''" "list_all is_ascii ''Connection: close''"
  by code_simp+

lemma format_response_ascii:
  assumes "list_all is_ascii status" "list_all is_ascii body"
  shows "list_all is_ascii (format_response status cors_headers body)"
  unfolding format_response_def
  using assms header_ascii str_of_nat_ascii [of "length body"]
  by (simp only: list_all_append)

lemma run_parsed:
  assumes "py_split '' '' (request_line input) = meth # path # rest"
    and "route api s meth path = (status, body)"
  shows "run api s input =
     (case encode_utf8 (format_response status cors_headers body) of
        Inr bs \<Rightarrow> \<lparr>written = bs, closed = True, logged = []\<rparr>
      | Inl e \<Rightarrow> \<lparr>written = [], closed = True, logged = [''[-] Request handler error'']\<rparr>)"
  using assms by (simp add: run_def request_line_def Let_def)

section \<open>Claims about the request handler\<close>

text \<open>
  C8. When the request line holds fewer than two tokens separated by a space, that is,
  when it contains no space at all (the empty stream included), the handler writes no
  byte to the client and closes the socket; it sends no status line.
\<close>

theorem malformed_request_line_gets_no_response:
  "(length (py_split '' '' (request_line input)) < 2
      \<longleftrightarrow> CHR '' '' \<notin> set (request_line input))
   \<and> (length (py_split '' '' (request_line input)) < 2 \<longrightarrow>
        written (run api s input) = [] \<and> closed (run api s input)
        \<and> run api s input = \<lparr>written = [], closed = True, logged = []\<rparr>)"
proof -
  have "run api s input = \<lparr>written = [], closed = True, logged = []\<rparr>"
    if "length (py_split '' '' (request_line input)) < 2"
    using that by (simp add: run_def request_line_def Let_def)
  then show ?thesis
    by (simp add: py_split_short_iff)
qed

lemma sample_malformed:
  "length (py_split '' '' (request_line malformed_request)) = 1"
  "length (py_split '' '' (request_line [])) = 1"
  by code_simp+

theorem malformed_request_line_gets_no_response_witness:
  "length (py_split '' '' (request_line malformed_request)) < 2
   \<and> written (run sample_helpers sample_store malformed_request) = []
   \<and> closed (run sample_helpers sample_store malformed_request)
   \<and> length (py_split '' '' (request_line [])) < 2
   \<and> written (run sample_helpers sample_store []) = []
   \<and> closed (run sample_helpers sample_store [])"
  using malformed_request_line_gets_no_response [of malformed_request sample_helpers sample_store]
        malformed_request_line_gets_no_response [of "[]" sample_helpers sample_store]
  by (simp only: sample_malformed) simp

text \<open>
  C6. For every request whose request line has at least two tokens, whatever the method
  and the path, the bytes written are the status line, the three CORS headers,
  \<open>Content-Type: application/json\<close>, \<open>Content-Length\<close> with the decimal length of the
  body in bytes, \<open>Connection: close\<close>, an empty line and the body; the socket is closed.
  The body is ASCII text, as \<open>json.dumps\<close> produces with its default \<open>ensure_ascii\<close>.
\<close>

theorem every_response_carries_headers:
  assumes "py_split '' '' (request_line input) = meth # path # rest"
    and "route api s meth path = (status, body)"
    and "list_all is_ascii body"
  shows "written (run api s input) =
           ''HTTP/1.1 '' @ status @ CRLF
           @ ''Access-Control-Allow-Origin: *'' @ CRLF
           @ ''Access-Control-Allow-Methods: GET, POST, OPTIONS'' @ CRLF
           @ ''Access-Control-Allow-Headers: Content-Type'' @ CRLF
           @ ''Content-Type: application/json'' @ CRLF
           @ ''Content-Length: '' @ str_of_nat (length body) @ CRLF
           @ ''Connection: close'' @ CRLF
           @ CRLF @ body
         \<and> list_all is_digit (str_of_nat (length body))
         \<and> nat_of_digits (str_of_nat (length body)) = length body
         \<and> status \<in> {''200 OK'', ''400 Bad Request'', ''404 Not Found''}
         \<and> closed (run api s input)"
proof -
  have st: "status \<in> {''200 OK'', ''400 Bad Request'', ''404 Not Found''}"
    using route_status [of api s meth path] assms(2) by simp
  then have "list_all is_ascii status"
    using status_ascii by auto
  then have "list_all is_ascii (format_response status cors_headers body)"
    using assms(3) by (rule format_response_ascii)
  then have "run api s input =
      \<lparr>written = format_response status cors_headers body, closed = True, logged = []\<rparr>"
    using run_parsed [OF assms(1,2)] by (simp add: encode_utf8_def)
  then show ?thesis
    using st str_of_nat_digits [of "length body"] str_of_nat_value [of "length body"]
    by (simp add: format_response_def cors_headers_def)
qed


lemma sample_requests:
  "py_split '' '' (request_line (http_request ''GET'' ''/stats''))
     = [''GET'', ''/stats'', ''HTTP/1.1'']"
  "py_split '' '' (request_line (http_request ''OPTIONS'' ''/anything''))
     = [''OPTIONS'', ''/anything'', ''HTTP/1.1'']"
  by code_simp+

lemma sample_routes:
  "route sample_helpers sample_store ''GET'' ''/stats''
     = (''200 OK'', json_dumps sample_helpers (stats_json (get_stats sample_store)) (Some 2))"
  "route sample_helpers sample_store ''OPTIONS'' ''/anything'' = (''200 OK'', [])"
  by (simp_all add: route_def startswith_def)

lemma sample_stats_body:
  "list_all is_ascii (json_dumps sample_helpers (stats_json (get_stats sample_store)) (Some 2))"
  "length (json_dumps sample_helpers (stats_json (get_stats sample_store)) (Some 2)) = 138"
  "str_of_nat 138 = ''138''" "str_of_nat 0 = ''0''"
  by code_simp+

theorem every_response_carries_headers_witness:
  "written (run sample_helpers sample_store (http_request ''GET'' ''/stats'')) =
     ''HTTP/1.1 200 OK'' @ CRLF
     @ ''Access-Control-Allow-Origin: *'' @ CRLF
     @ ''Access-Control-Allow-Methods: GET, POST, OPTIONS'' @ CRLF
     @ ''Access-Control-Allow-Headers: Content-Type'' @ CRLF
     @ ''Content-Type: application/json'' @ CRLF
     @ ''Content-Length: 138'' @ CRLF
     @ ''Connection: close'' @ CRLF
     @ CRLF @ json_dumps sample_helpers (stats_json (get_stats sample_store)) (Some 2)
   \<and> written (run sample_helpers sample_store (http_request ''OPTIONS'' ''/anything'')) =
     ''HTTP/1.1 200 OK'' @ CRLF
     @ ''Access-Control-Allow-Origin: *'' @ CRLF
     @ ''Access-Control-Allow-Methods: GET, POST, OPTIONS'' @ CRLF
     @ ''Access-Control-Allow-Headers: Content-Type'' @ CRLF
     @ ''Content-Type: application/json'' @ CRLF
     @ ''Content-Length: 0'' @ CRLF
     @ ''Connection: close'' @ CRLF
     @ CRLF"
  using every_response_carries_headers [OF sample_requests(1) sample_routes(1) sample_stats_body(1)]
        every_response_carries_headers [OF sample_requests(2) sample_routes(2)]
  by (simp add: sample_stats_body)



lemma py_int_error: "py_int t = Inl e \<Longrightarrow> e = ValueError"
  by (auto simp: py_int_def Let_def split: prod.splits if_splits)






end
